theory Spec2Isabelle
  imports Main "HOL-Library.Sublist" "HOL-Library.List_Lexorder"
begin

section \<open>Python values used by the analysis pipeline\<close>

text \<open>
  A Python \<open>str\<close> is a sequence of Unicode code points; slicing, \<open>len\<close>,
  \<open>startswith\<close> and the ordering of strings all work on code points. A string is
  therefore a list of code points (natural numbers), and \<open>str\<close> turns an ASCII
  literal into such a list. The tree connectors of the structure renderer lie outside
  Latin-1 and are written as code points.
\<close>

type_synonym pystr = "nat list"

definition str :: "string \<Rightarrow> pystr" where
  "str s = map of_char s"

definition newline :: nat where
  "newline = 10"

text \<open>The exceptions the modelled code can meet.\<close>

datatype pyerr =
  TypeError | AttributeError | KeyError | ParseError
  | IsADirectoryError | NotADirectoryError

text \<open>\<open>str.isspace\<close> for one code point: what \<open>str.strip()\<close> removes.\<close>

definition is_space :: "nat \<Rightarrow> bool" where
  "is_space c =
     ((9 \<le> c \<and> c \<le> 13) \<or> (28 \<le> c \<and> c \<le> 32) \<or> c = 133 \<or> c = 160 \<or> c = 5760
      \<or> (8192 \<le> c \<and> c \<le> 8202) \<or> c = 8232 \<or> c = 8233 \<or> c = 8239 \<or> c = 8287
      \<or> c = 12288)"

text \<open>\<open>s.strip()\<close>\<close>

definition py_strip :: "pystr \<Rightarrow> pystr" where
  "py_strip s = rev (dropWhile is_space (rev (dropWhile is_space s)))"

text \<open>\<open>s.startswith(p)\<close>\<close>

definition startswith :: "pystr \<Rightarrow> pystr \<Rightarrow> bool" where
  "startswith s p = prefix p s"

text \<open>\<open>sub in s\<close> for two strings\<close>

fun str_contains :: "pystr \<Rightarrow> pystr \<Rightarrow> bool" where
  "str_contains sub [] = (sub = [])"
| "str_contains sub (c # cs) = (prefix sub (c # cs) \<or> str_contains sub cs)"

text \<open>\<open>s.split(sep)\<close> for a one-character separator: never an empty list.\<close>

fun split_on :: "nat \<Rightarrow> pystr \<Rightarrow> pystr list" where
  "split_on sep [] = [[]]"
| "split_on sep (c # cs) =
     (if c = sep then [] # split_on sep cs
      else (case split_on sep cs of [] \<Rightarrow> [[c]] | l # ls \<Rightarrow> (c # l) # ls))"

text \<open>\<open>s.split(sep)[0]\<close>: the part of \<open>s\<close> before the first occurrence of \<open>sep\<close>.\<close>

fun split_first :: "pystr \<Rightarrow> pystr \<Rightarrow> pystr" where
  "split_first sep [] = []"
| "split_first sep (c # cs) = (if prefix sep (c # cs) then [] else c # split_first sep cs)"

text \<open>\<open>sep.join(parts)\<close> for a list of strings\<close>

fun join :: "pystr \<Rightarrow> pystr list \<Rightarrow> pystr" where
  "join sep [] = []"
| "join sep [x] = x"
| "join sep (x # y # ys) = x @ sep @ join sep (y # ys)"

text \<open>\<open>str(n)\<close> for a length: the decimal digits.\<close>

fun str_of_nat :: "nat \<Rightarrow> pystr" where
  "str_of_nat n = (if n < 10 then [48 + n] else str_of_nat (n div 10) @ [48 + n mod 10])"

declare str_of_nat.simps [simp del]

section \<open>The repository snapshot\<close>

text \<open>
  A checked-out tree: a file with its name and decoded text, or a directory with its
  name and its entries in the order the operating system lists them. Names are compared
  exactly (a POSIX file system).
\<close>

datatype entry = File pystr pystr | Dir pystr "entry list"

fun entry_name :: "entry \<Rightarrow> pystr" where
  "entry_name (File n c) = n"
| "entry_name (Dir n cs) = n"

fun is_dir :: "entry \<Rightarrow> bool" where
  "is_dir (File n c) = False"
| "is_dir (Dir n cs) = True"

text \<open>\<open>path / name\<close>, when it exists.\<close>

fun child :: "entry \<Rightarrow> pystr \<Rightarrow> entry option" where
  "child (File n c) name = None"
| "child (Dir n cs) name = find (\<lambda>e. entry_name e = name) cs"

definition path_exists :: "entry \<Rightarrow> pystr \<Rightarrow> bool" where
  "path_exists root name = (child root name \<noteq> None)"

text \<open>\<open>path.read_text(encoding='utf-8', errors='ignore')\<close>\<close>

fun read_text :: "entry \<Rightarrow> pyerr + pystr" where
  "read_text (File n c) = Inr c"
| "read_text (Dir n cs) = Inl IsADirectoryError"

section \<open>FileUtils: Python manifests\<close>

text \<open>The local list \<open>lines\<close> of \<open>_extract_python_info\<close>.\<close>

definition python_info_lines :: "pystr \<Rightarrow> pystr list" where
  "python_info_lines content =
     map py_strip
       (filter (\<lambda>line. py_strip line \<noteq> [] \<and> \<not> startswith line (str ''#''))
         (split_on newline content))"

text \<open>The body of the \<open>try\<close> block of \<open>_extract_python_info\<close>.\<close>

definition extract_python_info_body :: "entry \<Rightarrow> pyerr + pystr option" where
  "extract_python_info_body file_path =
     (case read_text file_path of
        Inl e \<Rightarrow> Inl e
      | Inr content \<Rightarrow>
          if entry_name file_path = str ''requirements.txt'' then
            Inr (Some (str ''Dependencies: '' @ str_of_nat (length (python_info_lines content))
                       @ str '' packages''))
          else if entry_name file_path = str ''setup.py'' then
            (if str_contains (str ''python_requires'') content
             then Inr (Some (str ''Python package with setup.py''))
             else Inr None)
          else Inr None)"

text \<open>\<open>_extract_python_info\<close>: any exception of the body becomes \<open>None\<close>.\<close>

definition extract_python_info :: "entry \<Rightarrow> pystr option" where
  "extract_python_info file_path =
     (case extract_python_info_body file_path of Inl e \<Rightarrow> None | Inr r \<Rightarrow> r)"

section \<open>CodeAnalyzer: dependencies read from requirements.txt\<close>

text \<open>The local list \<open>deps\<close> of the Python branch of \<open>_analyze_dependencies\<close>.\<close>

definition requirement_deps :: "pystr \<Rightarrow> pystr list" where
  "requirement_deps content =
     map (\<lambda>line. split_first (str ''~='') (split_first (str ''>='') (split_first (str ''=='') line)))
       (filter (\<lambda>line. py_strip line \<noteq> [] \<and> \<not> startswith line (str ''#''))
         (split_on newline content))"

text \<open>
  The words for the lines of a requirements file, as the file format has them: a blank
  line has only whitespace; a comment line is one whose first character that is not
  whitespace is the comment character; a package line is neither. An indented comment
  is a comment line that begins with whitespace.
\<close>

definition blank_line :: "pystr \<Rightarrow> bool" where
  "blank_line l = (\<forall>c \<in> set l. is_space c)"

definition comment_line :: "pystr \<Rightarrow> bool" where
  "comment_line l = (case dropWhile is_space l of [] \<Rightarrow> False | c # cs \<Rightarrow> c = 35)"

definition package_line :: "pystr \<Rightarrow> bool" where
  "package_line l = (\<not> blank_line l \<and> \<not> comment_line l)"

definition indented_comment :: "pystr \<Rightarrow> bool" where
  "indented_comment l = (comment_line l \<and> (case l of [] \<Rightarrow> False | c # cs \<Rightarrow> is_space c))"

text \<open>The version pins cut off a line by \<open>_analyze_dependencies\<close>.\<close>

definition strip_pins :: "pystr \<Rightarrow> pystr" where
  "strip_pins line =
     split_first (str ''~='') (split_first (str ''>='') (split_first (str ''=='') line))"

section \<open>Parsed JSON and YAML documents\<close>

text \<open>
  What \<open>json.load\<close> and \<open>yaml.safe_load\<close> return: scalars, strings, lists and
  dictionaries. A dictionary is the list of its items in iteration order, with distinct
  keys; JSON keys are strings, YAML keys may be any scalar.
\<close>

datatype pyval =
  VNone | VBool bool | VInt int | VStr pystr | VList "pyval list" | VDict "(pyval \<times> pyval) list"

text \<open>
  The libraries the code calls: the two parsers (\<open>None\<close> when the parser raises, which
  for a file opened in strict mode includes a decoding error) and the built-in
  rendering \<open>str(v)\<close> of a value that is not a string.
\<close>

record env =
  json_loads :: "pystr \<Rightarrow> pyval option"
  yaml_safe_load :: "pystr \<Rightarrow> pyval option"
  py_format :: "pyval \<Rightarrow> pystr"

text \<open>Sequencing of statements that may raise.\<close>

fun and_then :: "pyerr + 'a \<Rightarrow> ('a \<Rightarrow> pyerr + 'b) \<Rightarrow> pyerr + 'b" where
  "and_then (Inl e) f = Inl e"
| "and_then (Inr x) f = f x"

text \<open>\<open>k in v\<close> for a string \<open>k\<close>\<close>

fun py_in :: "pystr \<Rightarrow> pyval \<Rightarrow> pyerr + bool" where
  "py_in k (VDict kv) = Inr (VStr k \<in> set (map fst kv))"
| "py_in k (VList xs) = Inr (VStr k \<in> set xs)"
| "py_in k (VStr s) = Inr (str_contains k s)"
| "py_in k VNone = Inl TypeError"
| "py_in k (VBool b) = Inl TypeError"
| "py_in k (VInt i) = Inl TypeError"

text \<open>\<open>v[k]\<close> for a string \<open>k\<close>\<close>

fun py_getitem :: "pyval \<Rightarrow> pystr \<Rightarrow> pyerr + pyval" where
  "py_getitem (VDict kv) k = (case map_of kv (VStr k) of None \<Rightarrow> Inl KeyError | Some v \<Rightarrow> Inr v)"
| "py_getitem VNone k = Inl TypeError"
| "py_getitem (VBool b) k = Inl TypeError"
| "py_getitem (VInt i) k = Inl TypeError"
| "py_getitem (VStr s) k = Inl TypeError"
| "py_getitem (VList xs) k = Inl TypeError"

text \<open>\<open>v.get(k, default)\<close>\<close>

fun py_get :: "pyval \<Rightarrow> pystr \<Rightarrow> pyval \<Rightarrow> pyerr + pyval" where
  "py_get (VDict kv) k d = Inr (case map_of kv (VStr k) of None \<Rightarrow> d | Some v \<Rightarrow> v)"
| "py_get VNone k d = Inl AttributeError"
| "py_get (VBool b) k d = Inl AttributeError"
| "py_get (VInt i) k d = Inl AttributeError"
| "py_get (VStr s) k d = Inl AttributeError"
| "py_get (VList xs) k d = Inl AttributeError"

text \<open>\<open>len(v)\<close>\<close>

fun py_len :: "pyval \<Rightarrow> pyerr + nat" where
  "py_len (VDict kv) = Inr (length kv)"
| "py_len (VList xs) = Inr (length xs)"
| "py_len (VStr s) = Inr (length s)"
| "py_len VNone = Inl TypeError"
| "py_len (VBool b) = Inl TypeError"
| "py_len (VInt i) = Inl TypeError"

text \<open>\<open>list(v.keys())\<close>\<close>

fun py_keys :: "pyval \<Rightarrow> pyerr + pyval list" where
  "py_keys (VDict kv) = Inr (map fst kv)"
| "py_keys VNone = Inl AttributeError"
| "py_keys (VBool b) = Inl AttributeError"
| "py_keys (VInt i) = Inl AttributeError"
| "py_keys (VStr s) = Inl AttributeError"
| "py_keys (VList xs) = Inl AttributeError"

fun is_str :: "pyval \<Rightarrow> bool" where
  "is_str (VStr s) = True"
| "is_str v = False"

fun the_str :: "pyval \<Rightarrow> pystr" where
  "the_str (VStr s) = s"
| "the_str v = []"

text \<open>\<open>sep.join(vs)\<close>: a \<open>TypeError\<close> unless every item is a string.\<close>

definition join_vals :: "pystr \<Rightarrow> pyval list \<Rightarrow> pyerr + pystr" where
  "join_vals sep vs = (if list_all is_str vs then Inr (join sep (map the_str vs)) else Inl TypeError)"

text \<open>A value inside an f-string.\<close>

definition fmt :: "env \<Rightarrow> pyval \<Rightarrow> pystr" where
  "fmt env v = (case v of VStr s \<Rightarrow> s | _ \<Rightarrow> py_format env v)"

section \<open>FileUtils: the Node manifest and the configuration scan\<close>

text \<open>The body of the \<open>try\<close> block of \<open>_extract_package_json_info\<close>.\<close>

definition extract_package_json_info_body :: "env \<Rightarrow> entry \<Rightarrow> pyerr + pystr option" where
  "extract_package_json_info_body env package_path =
     and_then (read_text package_path) (\<lambda>content.
     and_then (case json_loads env content of None \<Rightarrow> Inl ParseError | Some d \<Rightarrow> Inr d) (\<lambda>data.
     and_then (py_in (str ''scripts'') data) (\<lambda>has_scripts.
     and_then
       (if has_scripts then
          and_then (py_getitem data (str ''scripts'')) (\<lambda>sc.
          and_then (py_keys sc) (\<lambda>ks.
          and_then (join_vals (str '', '') (take 3 ks)) (\<lambda>joined.
          Inr [str ''Scripts: '' @ joined])))
        else Inr []) (\<lambda>info_parts.
     and_then (py_in (str ''engines'') data) (\<lambda>has_engines.
     and_then
       (if has_engines then
          and_then (py_getitem data (str ''engines'')) (\<lambda>engines.
          and_then (py_in (str ''node'') engines) (\<lambda>has_node.
          if has_node then
            and_then (py_getitem engines (str ''node'')) (\<lambda>node.
            Inr (info_parts @ [str ''Node: '' @ fmt env node]))
          else Inr info_parts))
        else Inr info_parts) (\<lambda>info_parts.
     Inr (if info_parts \<noteq> [] then Some (join (str '' | '') info_parts) else None)))))))"

definition extract_package_json_info :: "env \<Rightarrow> entry \<Rightarrow> pystr option" where
  "extract_package_json_info env package_path =
     (case extract_package_json_info_body env package_path of Inl e \<Rightarrow> None | Inr r \<Rightarrow> r)"

definition config_patterns :: "pystr list" where
  "config_patterns =
     [str ''config.json'', str ''config.yaml'', str ''config.yml'',
      str ''.env.example'', str ''.env.template'',
      str ''docker-compose.yml'', str ''docker-compose.yaml'',
      str ''Dockerfile'', str ''Makefile'',
      str ''package.json'', str ''requirements.txt'', str ''setup.py'',
      str ''pom.xml'', str ''build.gradle'', str ''go.mod'', str ''Cargo.toml'']"

text \<open>\<open>if info: config_files.append(f"  {info}")\<close>\<close>

fun append_info :: "pystr list \<Rightarrow> pystr option \<Rightarrow> pystr list" where
  "append_info config_files None = config_files"
| "append_info config_files (Some info) =
     (if info \<noteq> [] then config_files @ [str ''  '' @ info] else config_files)"

text \<open>The loop of \<open>find_config_files\<close> over the patterns, carrying \<open>config_files\<close>.\<close>

fun config_loop :: "env \<Rightarrow> entry \<Rightarrow> pystr list \<Rightarrow> pystr list \<Rightarrow> pystr list" where
  "config_loop env repo_path [] config_files = config_files"
| "config_loop env repo_path (pattern # rest) config_files =
     (case child repo_path pattern of
        None \<Rightarrow> config_loop env repo_path rest config_files
      | Some config_path \<Rightarrow>
          config_loop env repo_path rest
            (if pattern = str ''package.json'' then
               append_info (config_files @ [str ''- '' @ pattern])
                 (extract_package_json_info env config_path)
             else if pattern \<in> set [str ''requirements.txt'', str ''setup.py''] then
               append_info (config_files @ [str ''- '' @ pattern])
                 (extract_python_info config_path)
             else config_files @ [str ''- '' @ pattern]))"

definition find_config_files :: "env \<Rightarrow> entry \<Rightarrow> pystr" where
  "find_config_files env repo_path =
     (let config_files = config_loop env repo_path config_patterns []
      in if config_files \<noteq> [] then join [newline] config_files
         else str ''No configuration files found'')"

section \<open>CodeAnalyzer: entry points and dependencies\<close>

definition common_entry_files :: "pystr list" where
  "common_entry_files =
     [str ''main.py'', str ''app.py'', str ''server.py'', str ''index.js'', str ''main.js'',
      str ''app.js'', str ''server.js'', str ''main.go'', str ''main.java'', str ''Program.cs'']"

text \<open>The loop of \<open>_find_entry_points\<close>, carrying \<open>entry_points\<close>.\<close>

fun entry_loop :: "entry \<Rightarrow> pystr list \<Rightarrow> pystr list \<Rightarrow> pystr list" where
  "entry_loop repo_path [] entry_points = entry_points"
| "entry_loop repo_path (entry_file # rest) entry_points =
     entry_loop repo_path rest
       (if path_exists repo_path entry_file then entry_points @ [entry_file] else entry_points)"

definition find_entry_points :: "entry \<Rightarrow> pystr list" where
  "find_entry_points repo_path = entry_loop repo_path common_entry_files []"





text \<open>Libraries whose parsers reject every document, for examples that parse nothing.\<close>

definition no_libs :: env where
  "no_libs = \<lparr>json_loads = (\<lambda>c. None), yaml_safe_load = (\<lambda>c. None), py_format = (\<lambda>v. [])\<rparr>"





section \<open>FileUtils: the project structure\<close>

text \<open>
  The four pieces of the tree drawing: the connector of the last entry of a directory
  (U+2514 U+2500 U+2500 and a space), the connector of any other entry (U+251C U+2500
  U+2500 and a space), and the two indentations that continue them one level below.
\<close>

definition last_connector :: pystr where
  "last_connector = [9492, 9472, 9472, 32]"

definition mid_connector :: pystr where
  "mid_connector = [9500, 9472, 9472, 32]"

definition last_indent :: pystr where
  "last_indent = str ''    ''"

definition mid_indent :: pystr where
  "mid_indent = [9474, 32, 32, 32]"

text \<open>The filter of \<open>add_directory\<close>: hidden names and four directory names are left out.\<close>

definition listed :: "entry \<Rightarrow> bool" where
  "listed item =
     (\<not> startswith (entry_name item) (str ''.'')
      \<and> entry_name item \<notin> set [str ''node_modules'', str ''__pycache__'', str ''venv'', str ''env''])"

text \<open>
  \<open>add_directory\<close>, with the loop over the sorted items as \<open>add_items\<close>; both return
  the lines they append to \<open>structure_lines\<close>. \<open>path.iterdir()\<close> raises on a path
  that is not a directory. Sorting paths of one directory compares their names.
\<close>

function add_directory :: "int \<Rightarrow> entry \<Rightarrow> pystr \<Rightarrow> int \<Rightarrow> pyerr + pystr list"
  and add_items :: "int \<Rightarrow> entry list \<Rightarrow> pystr \<Rightarrow> int \<Rightarrow> pyerr + pystr list" where
  "add_directory max_depth (File n c) prefix' depth =
     (if depth > max_depth then Inr [] else Inl NotADirectoryError)"
| "add_directory max_depth (Dir n cs) prefix' depth =
     (if depth > max_depth then Inr []
      else add_items max_depth (sort_key entry_name (filter listed cs)) prefix' depth)"
| "add_items max_depth [] prefix' depth = Inr []"
| "add_items max_depth (item # rest) prefix' depth =
     (let is_last = (rest = []);
          line = prefix' @ (if is_last then last_connector else mid_connector) @ entry_name item
      in case (if is_dir item \<and> depth < max_depth
               then add_directory max_depth item
                      (prefix' @ (if is_last then last_indent else mid_indent)) (depth + 1)
               else Inr []) of
           Inl e \<Rightarrow> Inl e
         | Inr below \<Rightarrow>
             (case add_items max_depth rest prefix' depth of
                Inl e \<Rightarrow> Inl e
              | Inr later \<Rightarrow> Inr (line # below @ later)))"
  by pat_completeness auto
termination
  by (relation "measures
        [\<lambda>x. case x of Inl (m, p, pre, d) \<Rightarrow> nat (m - d) | Inr (m, items, pre, d) \<Rightarrow> nat (m - d),
         \<lambda>x. case x of Inl a \<Rightarrow> 1 | Inr b \<Rightarrow> 0,
         \<lambda>x. case x of Inl a \<Rightarrow> 0 | Inr (m, items, pre, d) \<Rightarrow> length items]")
     auto

definition get_project_structure :: "entry \<Rightarrow> int \<Rightarrow> pyerr + pystr" where
  "get_project_structure repo_path max_depth =
     (case add_directory max_depth repo_path [] 0 of
        Inl e \<Rightarrow> Inl e
      | Inr structure_lines \<Rightarrow> Inr (join [newline] (entry_name repo_path # structure_lines)))"

text \<open>A sample tree with a hidden directory, an excluded directory and nested entries.\<close>

definition sample_tree :: entry where
  "sample_tree =
     Dir (str ''svc'')
       [File (str ''setup.py'') [],
        Dir (str ''.git'') [File (str ''HEAD'') []],
        Dir (str ''app'') [File (str ''main.py'') [], Dir (str ''api'') [File (str ''v1.py'') []]],
        Dir (str ''node_modules'') [File (str ''x.js'') []],
        File (str ''README.md'') []]"

section \<open>APISpecAnalyzer\<close>

text \<open>
  Matching one path component against a glob pattern made of literal characters and
  \<open>*\<close> (code point 42), as the patterns of this program are. Matching is exact in the
  case of letters (POSIX), and a leading dot is not special.
\<close>

fun glob_match :: "pystr \<Rightarrow> pystr \<Rightarrow> bool" where
  "glob_match [] s = (s = [])"
| "glob_match (p # ps) [] = (p = 42 \<and> glob_match ps [])"
| "glob_match (p # ps) (c # cs) =
     (if p = 42 then glob_match ps (c # cs) \<or> glob_match (p # ps) cs
      else p = c \<and> glob_match ps cs)"

text \<open>
  \<open>path.rglob(pattern)\<close>: the entries below \<open>path\<close>, at any depth, whose name matches;
  those of a directory come before those of its subdirectories. The path itself is not
  among them, and a path that is not a directory has none.
\<close>

fun rglob :: "pystr \<Rightarrow> entry \<Rightarrow> entry list" where
  "rglob pat (File n c) = []"
| "rglob pat (Dir n cs) =
     filter (\<lambda>e. glob_match pat (entry_name e)) cs @ concat (map (rglob pat) cs)"

text \<open>\<open>name.rfind(c)\<close>, \<open>None\<close> for -1.\<close>

fun rfind :: "nat \<Rightarrow> pystr \<Rightarrow> nat option" where
  "rfind c [] = None"
| "rfind c (x # xs) =
     (case rfind c xs of Some i \<Rightarrow> Some (Suc i) | None \<Rightarrow> if x = c then Some 0 else None)"

text \<open>\<open>path.suffix\<close>: the name from its last dot on, unless that dot is first or last.\<close>

definition path_suffix :: "pystr \<Rightarrow> pystr" where
  "path_suffix name =
     (case rfind 46 name of
        None \<Rightarrow> []
      | Some i \<Rightarrow> if 0 < i \<and> i < length name - 1 then drop i name else [])"

text \<open>
  The body of the \<open>try\<close> block of \<open>_extract_api_info\<close>, in two parts: the statements
  after parsing, which build \<open>info\<close> from the parsed document, and the reading and
  parsing before them.
\<close>

definition api_info_text :: "env \<Rightarrow> pyval \<Rightarrow> pyerr + pystr" where
  "api_info_text env spec_data =
     and_then (py_in (str ''info'') spec_data) (\<lambda>has_info.
     and_then
       (if has_info then
          and_then (py_getitem spec_data (str ''info'')) (\<lambda>info_section.
          and_then (py_get info_section (str ''title'') (VStr (str ''Unknown''))) (\<lambda>title.
          and_then (py_get info_section (str ''version'') (VStr (str ''Unknown''))) (\<lambda>version.
          Inr [str ''  Title: '' @ fmt env title @ str '', Version: '' @ fmt env version])))
        else Inr []) (\<lambda>info.
     and_then (py_in (str ''paths'') spec_data) (\<lambda>has_paths.
     and_then
       (if has_paths then
          and_then (py_getitem spec_data (str ''paths'')) (\<lambda>paths.
          and_then (py_len paths) (\<lambda>endpoint_count.
          and_then (py_keys paths) (\<lambda>ks.
          if take 3 ks \<noteq> [] then
            and_then (join_vals (str '', '') (take 3 ks)) (\<lambda>joined.
            Inr (info @ [str ''  Endpoints: '' @ str_of_nat endpoint_count,
                         str ''  Sample endpoints: '' @ joined]))
          else Inr (info @ [str ''  Endpoints: '' @ str_of_nat endpoint_count]))))
        else Inr info) (\<lambda>info.
     Inr (join [newline] info)))))"

definition extract_api_info_body :: "env \<Rightarrow> entry \<Rightarrow> pyerr + pystr" where
  "extract_api_info_body env spec_file =
     and_then (read_text spec_file) (\<lambda>content.
     and_then
       (case (if path_suffix (entry_name spec_file) = str ''.json''
              then json_loads env content else yaml_safe_load env content) of
          None \<Rightarrow> Inl ParseError
        | Some d \<Rightarrow> Inr d) (\<lambda>spec_data.
     api_info_text env spec_data))"

text \<open>\<open>_extract_api_info\<close>: any exception of the body becomes \<open>None\<close>.\<close>

definition extract_api_info :: "env \<Rightarrow> entry \<Rightarrow> pystr option" where
  "extract_api_info env spec_file =
     (case extract_api_info_body env spec_file of Inl e \<Rightarrow> None | Inr r \<Rightarrow> Some r)"

text \<open>The list \<open>openapi_files\<close> of \<open>find_api_specs\<close>.\<close>

definition openapi_files :: "entry \<Rightarrow> entry list" where
  "openapi_files repo_path = rglob (str ''*openapi*'') repo_path @ rglob (str ''*swagger*'') repo_path"

text \<open>The first loop of \<open>find_api_specs\<close>, carrying \<open>specs\<close>.\<close>

fun openapi_loop :: "env \<Rightarrow> entry list \<Rightarrow> pystr list \<Rightarrow> pystr list" where
  "openapi_loop env [] specs = specs"
| "openapi_loop env (spec_file # rest) specs =
     openapi_loop env rest
       (if path_suffix (entry_name spec_file) \<in> set [str ''.yaml'', str ''.yml'', str ''.json''] then
          (case extract_api_info env spec_file of
             None \<Rightarrow> specs @ [str ''OpenAPI Spec: '' @ entry_name spec_file]
           | Some content \<Rightarrow>
               if content \<noteq> []
               then specs @ [str ''OpenAPI Spec: '' @ entry_name spec_file, content]
               else specs @ [str ''OpenAPI Spec: '' @ entry_name spec_file])
        else specs)"

text \<open>The second loop, over the GraphQL candidates.\<close>

fun graphql_loop :: "entry list \<Rightarrow> pystr list \<Rightarrow> pystr list" where
  "graphql_loop [] specs = specs"
| "graphql_loop (schema_file # rest) specs =
     graphql_loop rest
       (if path_suffix (entry_name schema_file) \<in> set [str ''.graphql'', str ''.gql'']
        then specs @ [str ''GraphQL Schema: '' @ entry_name schema_file]
        else specs)"

text \<open>The third loop, over the documentation candidates.\<close>

fun api_docs_loop :: "entry list \<Rightarrow> pystr list \<Rightarrow> pystr list" where
  "api_docs_loop [] specs = specs"
| "api_docs_loop (doc_path # rest) specs =
     api_docs_loop rest
       (if is_dir doc_path \<and> rglob (str ''*.md'') doc_path \<noteq> []
        then specs @ [str ''API Documentation: '' @ entry_name doc_path @ str ''/'']
        else specs)"

definition find_api_specs :: "env \<Rightarrow> entry \<Rightarrow> pystr" where
  "find_api_specs env repo_path =
     (let specs = openapi_loop env (openapi_files repo_path) [];
          specs = graphql_loop
                    (rglob (str ''*.graphql'') repo_path @ rglob (str ''*schema*'') repo_path) specs;
          specs = api_docs_loop
                    (rglob (str ''*api*'') repo_path @ rglob (str ''*docs*'') repo_path) specs
      in if specs \<noteq> [] then join [newline] specs else str ''No API specifications found'')"

text \<open>
  The specification's words for the first pass. An entry of the repository is any entry
  below the root. The selection the specification describes lower-cases the name (ASCII letters) before it
  looks for a keyword; the parsed document of a file is what its parser returns, if the
  file can be read and parsed; a document has the expected shape when it is a mapping
  with an \<open>info\<close> or a \<open>paths\<close> section, each section present is a mapping, and the
  first three keys of \<open>paths\<close> are strings.
\<close>

fun descendants :: "entry \<Rightarrow> entry list" where
  "descendants (File n c) = []"
| "descendants (Dir n cs) = concat (map (\<lambda>c. c # descendants c) cs)"

definition ascii_lower :: "pystr \<Rightarrow> pystr" where
  "ascii_lower s = map (\<lambda>c. if 65 \<le> c \<and> c \<le> 90 then c + 32 else c) s"

definition spec_suffixes :: "pystr list" where
  "spec_suffixes = [str ''.yaml'', str ''.yml'', str ''.json'']"

definition keyword_in_name :: "pystr \<Rightarrow> bool" where
  "keyword_in_name name = (sublist (str ''openapi'') name \<or> sublist (str ''swagger'') name)"

definition claimed_spec_file :: "entry \<Rightarrow> bool" where
  "claimed_spec_file e =
     (keyword_in_name (ascii_lower (entry_name e)) \<and> path_suffix (entry_name e) \<in> set spec_suffixes)"

definition parsed_document :: "env \<Rightarrow> entry \<Rightarrow> pyval option" where
  "parsed_document env f =
     (case read_text f of
        Inl e \<Rightarrow> None
      | Inr content \<Rightarrow>
          if path_suffix (entry_name f) = str ''.json''
          then json_loads env content else yaml_safe_load env content)"

fun is_dict :: "pyval \<Rightarrow> bool" where
  "is_dict (VDict kv) = True"
| "is_dict v = False"

fun expected_shape :: "pyval \<Rightarrow> bool" where
  "expected_shape (VDict kv) =
     ((map_of kv (VStr (str ''info'')) \<noteq> None \<or> map_of kv (VStr (str ''paths'')) \<noteq> None)
      \<and> (case map_of kv (VStr (str ''info'')) of None \<Rightarrow> True | Some v \<Rightarrow> is_dict v)
      \<and> (case map_of kv (VStr (str ''paths'')) of
            None \<Rightarrow> True
          | Some (VDict ps) \<Rightarrow> list_all is_str (take 3 (map fst ps))
          | Some v \<Rightarrow> False))"
| "expected_shape v = False"

text \<open>
  What one selected file adds to \<open>specs\<close> in the first pass: its header line, then the
  extracted text when there is any.
\<close>

definition spec_block :: "env \<Rightarrow> entry \<Rightarrow> pystr list" where
  "spec_block env f =
     (str ''OpenAPI Spec: '' @ entry_name f)
     # (case extract_api_info env f of
          None \<Rightarrow> []
        | Some content \<Rightarrow> if content \<noteq> [] then [content] else [])"

text \<open>
  Libraries for the examples: YAML that parses one document, a mapping with neither an
  \<open>info\<close> nor a \<open>paths\<close> section, and rejects every other text.
\<close>

definition yaml_libs :: env where
  "yaml_libs =
     \<lparr>json_loads = (\<lambda>c. None),
      yaml_safe_load = (\<lambda>c. if c = str ''name: billing''
                              then Some (VDict [(VStr (str ''name''), VStr (str ''billing''))])
                              else None),
      py_format = (\<lambda>v. [])\<rparr>"

section \<open>FileUtils: the README lookup\<close>

definition readme_patterns :: "pystr list" where
  "readme_patterns = [str ''README.md'', str ''README.rst'', str ''README.txt'', str ''README'']"

text \<open>
  The loop of \<open>find_readme\<close>: the first pattern that exists and can be read gives the
  result, its whole text; a pattern that exists and cannot be read is passed over.
\<close>

fun readme_loop :: "entry \<Rightarrow> pystr list \<Rightarrow> pystr option" where
  "readme_loop repo_path [] = None"
| "readme_loop repo_path (pattern # rest) =
     (case child repo_path pattern of
        None \<Rightarrow> readme_loop repo_path rest
      | Some readme_path \<Rightarrow>
          (case read_text readme_path of
             Inr content \<Rightarrow> Some content
           | Inl e \<Rightarrow> readme_loop repo_path rest))"

definition find_readme :: "entry \<Rightarrow> pystr option" where
  "find_readme repo_path = readme_loop repo_path readme_patterns"

section \<open>ServiceDocGenerator: the context for the language model\<close>

text \<open>The dictionary \<open>analysis\<close> built by \<open>_analyze_repository\<close>.\<close>

record analysis =
  structure_text :: pystr
  readme :: "pystr option"
  api_specs :: pystr
  code_analysis :: pystr
  config_files :: pystr

text \<open>
  The list \<open>context_parts\<close> at the end of \<open>_prepare_llm_context\<close>. Each \<open>if\<close> tests the
  truth value of a field: a string is true when it is not empty, \<open>None\<close> is false.
\<close>

definition context_parts :: "analysis \<Rightarrow> pystr list" where
  "context_parts a =
     (let parts = [];
          parts = (if structure_text a \<noteq> []
                   then parts @ [str ''**Project Structure:**\<newline>'' @ structure_text a]
                   else parts);
          parts = (case readme a of
                     None \<Rightarrow> parts
                   | Some r \<Rightarrow>
                       if r \<noteq> []
                       then parts @ [str ''**Existing README:**\<newline>'' @ take 2000 r @ str ''...'']
                       else parts);
          parts = (if api_specs a \<noteq> []
                   then parts @ [str ''**API Specifications:**\<newline>'' @ api_specs a]
                   else parts);
          parts = (if code_analysis a \<noteq> []
                   then parts @ [str ''**Code Analysis:**\<newline>'' @ code_analysis a]
                   else parts);
          parts = (if config_files a \<noteq> []
                   then parts @ [str ''**Configuration:**\<newline>'' @ config_files a]
                   else parts)
      in parts)"

definition prepare_llm_context :: "analysis \<Rightarrow> pystr" where
  "prepare_llm_context a = join [newline, newline] (context_parts a)"

text \<open>
  The specification's words for the assembler: five sections in a fixed order, each
  with its label, the data that decides whether it is emitted, and the text emitted
  under the label; a block is the bold label, a line break and the text. The
  placeholder markers are the two texts that stand for "nothing found".
\<close>

definition sections :: "analysis \<Rightarrow> (pystr \<times> pystr \<times> pystr) list" where
  "sections a =
     [(str ''Project Structure'', structure_text a, structure_text a),
      (str ''Existing README'',
         (case readme a of None \<Rightarrow> [] | Some r \<Rightarrow> r),
         (case readme a of None \<Rightarrow> [] | Some r \<Rightarrow> take 2000 r @ str ''...'')),
      (str ''API Specifications'', api_specs a, api_specs a),
      (str ''Code Analysis'', code_analysis a, code_analysis a),
      (str ''Configuration'', config_files a, config_files a)]"

definition block :: "pystr \<times> pystr \<times> pystr \<Rightarrow> pystr" where
  "block s = (case s of (label, decides, emitted) \<Rightarrow> str ''**'' @ label @ str '':**\<newline>'' @ emitted)"

definition placeholder_markers :: "pystr list" where
  "placeholder_markers = [str ''No API specifications found'', str ''No configuration files found'']"

text \<open>The assembled context as the specification words it: placeholders are left out.\<close>

definition claimed_context :: "analysis \<Rightarrow> pystr" where
  "claimed_context a =
     join [newline, newline]
       (map block
         (filter (\<lambda>s. fst (snd s) \<noteq> [] \<and> fst (snd s) \<notin> set placeholder_markers) (sections a)))"

text \<open>The analysis of a repository that holds nothing: every finder reports its default.\<close>

definition empty_repo_analysis :: analysis where
  "empty_repo_analysis =
     \<lparr>structure_text = str ''svc'',
      readme = find_readme (Dir (str ''svc'') []),
      api_specs = find_api_specs no_libs (Dir (str ''svc'') []),
      code_analysis = [],
      config_files = find_config_files no_libs (Dir (str ''svc'') [])\<rparr>"

text \<open>An analysis whose README is the text found in a repository: 5000 times the letter a.\<close>

definition long_readme_analysis :: analysis where
  "long_readme_analysis =
     \<lparr>structure_text = str ''svc'',
      readme = find_readme (Dir (str ''svc'') [File (str ''README.md'') (replicate 5000 97)]),
      api_specs = str ''No API specifications found'',
      code_analysis = [],
      config_files = str ''- README''\<rparr>"

section \<open>Properties of the manifest readers\<close>

lemma all_dropWhile_iff: "(\<forall>x \<in> set (dropWhile P l). P x) \<longleftrightarrow> (\<forall>x \<in> set l. P x)"
proof
  assume a: "\<forall>x \<in> set (dropWhile P l). P x"
  have "dropWhile P l = []"
  proof (rule ccontr)
    assume "dropWhile P l \<noteq> []"
    then have "\<not> P (hd (dropWhile P l))" "hd (dropWhile P l) \<in> set (dropWhile P l)"
      by (simp_all add: hd_dropWhile)
    with a show False by blast
  qed
  then show "\<forall>x \<in> set l. P x" by (simp add: dropWhile_eq_Nil_conv)
next
  assume "\<forall>x \<in> set l. P x"
  then show "\<forall>x \<in> set (dropWhile P l). P x" by (meson set_dropWhileD)
qed

lemma py_strip_empty_iff: "py_strip l = [] \<longleftrightarrow> blank_line l"
  by (simp add: py_strip_def blank_line_def all_dropWhile_iff)

lemma not_space_hash: "\<not> is_space 35"
  by (simp add: is_space_def)

lemma startswith_hash: "startswith l (str ''#'') \<longleftrightarrow> (\<exists>cs. l = 35 # cs)"
  by (cases l) (auto simp: startswith_def str_def)

lemma dropWhile_Cons_mem: "dropWhile P xs = y # ys \<Longrightarrow> y \<in> set xs"
  by (metis list.set_intros(1) set_dropWhileD)

lemma blank_line_dropWhile: "blank_line l \<longleftrightarrow> dropWhile is_space l = []"
  by (simp add: blank_line_def dropWhile_eq_Nil_conv)

text \<open>
  The test both readers apply to a line (not blank once stripped, and the raw line does
  not begin with the comment character) keeps the package lines and the indented
  comments, and nothing else.
\<close>

lemma kept_line_iff:
  "(py_strip l \<noteq> [] \<and> \<not> startswith l (str ''#'')) \<longleftrightarrow> (package_line l \<or> indented_comment l)"
proof (cases l)
  case Nil
  then show ?thesis
    by (simp add: py_strip_empty_iff blank_line_def package_line_def indented_comment_def)
next
  case (Cons c cs)
  show ?thesis
  proof (cases "is_space c")
    case True
    with Cons show ?thesis
      using not_space_hash
      by (auto simp: py_strip_empty_iff startswith_hash package_line_def indented_comment_def
          comment_line_def blank_line_def split: list.splits dest: dropWhile_Cons_mem)
  next
    case False
    with Cons show ?thesis
      by (auto simp: py_strip_empty_iff startswith_hash package_line_def indented_comment_def
          comment_line_def blank_line_def)
  qed
qed

lemma indented_comment_not_package: "indented_comment l \<Longrightarrow> \<not> package_line l"
  by (simp add: indented_comment_def package_line_def)

lemma length_filter_either:
  assumes "\<And>x. x \<in> set xs \<Longrightarrow> \<not> (P x \<and> Q x)"
  shows "length (filter (\<lambda>x. P x \<or> Q x) xs) = length (filter P xs) + length (filter Q xs)"
  using assms by (induction xs) auto

lemma kept_lines_count:
  "length (filter (\<lambda>line. py_strip line \<noteq> [] \<and> \<not> startswith line (str ''#'')) ls)
   = length (filter package_line ls) + length (filter indented_comment ls)"
proof -
  have "filter (\<lambda>line. py_strip line \<noteq> [] \<and> \<not> startswith line (str ''#'')) ls
        = filter (\<lambda>l. package_line l \<or> indented_comment l) ls"
    by (simp add: kept_line_iff)
  then show ?thesis
    using length_filter_either [of ls package_line indented_comment] indented_comment_not_package
    by auto
qed

lemma python_info_count:
  "length (python_info_lines content)
   = length (filter package_line (split_on newline content))
     + length (filter indented_comment (split_on newline content))"
  by (simp add: python_info_lines_def kept_lines_count)

lemma requirement_deps_count:
  "length (requirement_deps content)
   = length (filter package_line (split_on newline content))
     + length (filter indented_comment (split_on newline content))"
  by (simp add: requirement_deps_def kept_lines_count)

lemma extract_python_info_requirements:
  "extract_python_info (File (str ''requirements.txt'') content)
   = Some (str ''Dependencies: '' @ str_of_nat (length (python_info_lines content)) @ str '' packages'')"
  by (simp add: extract_python_info_def extract_python_info_body_def)

lemma str_of_nat_3: "str_of_nat 3 = str ''3''"
  by (simp add: str_of_nat.simps str_def)

lemma unindented_comments:
  assumes "\<forall>l \<in> set ls. comment_line l \<longrightarrow> startswith l (str ''#'')"
  shows "filter indented_comment ls = []"
proof -
  have "\<not> indented_comment l" if "l \<in> set ls" for l
  proof
    assume i: "indented_comment l"
    then have "comment_line l" by (simp add: indented_comment_def)
    with assms that obtain cs where "l = 35 # cs" by (auto simp: startswith_hash)
    with i not_space_hash show False by (simp add: indented_comment_def)
  qed
  then show ?thesis by (simp add: filter_empty_conv)
qed

text \<open>
  C9, as the code has it. A requirements.txt with exactly three package lines and two
  comment lines, every comment line beginning with the comment character itself, is
  reported as "Dependencies: 3 packages".
\<close>

theorem extract_python_info_three_packages:
  assumes "length (filter package_line (split_on newline content)) = 3"
    and "length (filter comment_line (split_on newline content)) = 2"
    and "\<forall>l \<in> set (split_on newline content). comment_line l \<longrightarrow> startswith l (str ''#'')"
  shows "extract_python_info (File (str ''requirements.txt'') content)
         = Some (str ''Dependencies: 3 packages'')"
proof -
  have "length (python_info_lines content) = 3"
    using assms(1) unindented_comments [OF assms(3)] by (simp add: python_info_count)
  then show ?thesis
    by (simp add: extract_python_info_requirements str_of_nat_3) (simp add: str_def)
qed

theorem extract_python_info_three_packages_witness:
  "length (filter package_line
      (split_on newline (str ''flask==2.0\<newline># web\<newline>requests>=2\<newline># db\<newline>numpy\<newline>''))) = 3
   \<and> length (filter comment_line
      (split_on newline (str ''flask==2.0\<newline># web\<newline>requests>=2\<newline># db\<newline>numpy\<newline>''))) = 2
   \<and> extract_python_info (File (str ''requirements.txt'')
        (str ''flask==2.0\<newline># web\<newline>requests>=2\<newline># db\<newline>numpy\<newline>''))
       = Some (str ''Dependencies: 3 packages'')"
proof -
  let ?c = "str ''flask==2.0\<newline># web\<newline>requests>=2\<newline># db\<newline>numpy\<newline>''"
  have sp: "split_on newline ?c
            = [str ''flask==2.0'', str ''# web'', str ''requests>=2'', str ''# db'', str ''numpy'', []]"
    by (simp add: str_def newline_def)
  have h1: "length (filter package_line (split_on newline ?c)) = 3"
    unfolding sp by (simp add: package_line_def blank_line_def comment_line_def is_space_def str_def)
  have h2: "length (filter comment_line (split_on newline ?c)) = 2"
    unfolding sp by (simp add: comment_line_def is_space_def str_def)
  have h3: "\<forall>l \<in> set (split_on newline ?c). comment_line l \<longrightarrow> startswith l (str ''#'')"
    unfolding sp by (simp add: comment_line_def is_space_def startswith_def str_def)
  show ?thesis
    using h1 h2 extract_python_info_three_packages [OF h1 h2 h3] by simp
qed

text \<open>
  Three package lines and two comment lines that begin with two spaces: the report is
  of five packages, not of three.
\<close>

theorem extract_python_info_indented_counterexample:
  "length (filter package_line
      (split_on newline (str ''flask\<newline>requests\<newline>numpy\<newline>  # web\<newline>  # db''))) = 3
   \<and> length (filter comment_line
      (split_on newline (str ''flask\<newline>requests\<newline>numpy\<newline>  # web\<newline>  # db''))) = 2
   \<and> extract_python_info (File (str ''requirements.txt'')
        (str ''flask\<newline>requests\<newline>numpy\<newline>  # web\<newline>  # db''))
       = Some (str ''Dependencies: 5 packages'')
   \<and> extract_python_info (File (str ''requirements.txt'')
        (str ''flask\<newline>requests\<newline>numpy\<newline>  # web\<newline>  # db''))
       \<noteq> Some (str ''Dependencies: 3 packages'')"
proof -
  let ?c = "str ''flask\<newline>requests\<newline>numpy\<newline>  # web\<newline>  # db''"
  have sp: "split_on newline ?c
            = [str ''flask'', str ''requests'', str ''numpy'', str ''  # web'', str ''  # db'']"
    by (simp add: str_def newline_def)
  have h1: "length (filter package_line (split_on newline ?c)) = 3"
    unfolding sp by (simp add: package_line_def blank_line_def comment_line_def is_space_def str_def)
  have h2: "length (filter comment_line (split_on newline ?c)) = 2"
    unfolding sp by (simp add: comment_line_def is_space_def str_def)
  have n: "length (python_info_lines ?c) = 5"
    unfolding python_info_lines_def sp
    by (simp add: py_strip_def is_space_def startswith_def str_def)
  have r: "extract_python_info (File (str ''requirements.txt'') ?c)
           = Some (str ''Dependencies: 5 packages'')"
    unfolding extract_python_info_requirements n
    by (simp add: str_of_nat.simps) (simp add: str_def)
  have d: "extract_python_info (File (str ''requirements.txt'') ?c)
           \<noteq> Some (str ''Dependencies: 3 packages'')"
    unfolding r by (simp add: str_def)
  from h1 h2 r d show ?thesis by (intro conjI)
qed

lemma indented_comment_kept:
  "indented_comment l \<Longrightarrow> py_strip l \<noteq> [] \<and> \<not> startswith l (str ''#'')"
  by (simp add: kept_line_iff)

text \<open>
  C10. A line of requirements.txt that begins with whitespace and whose first character
  after that whitespace is the comment character is kept by both readers, on whatever
  line of the file it stands: its stripped text is among the lines that
  \<open>_extract_python_info\<close> counts, and the line, cut at its first version pin, is among
  the dependencies of \<open>_analyze_dependencies\<close>. The count that \<open>_extract_python_info\<close>
  reports, and the number of dependencies that \<open>_analyze_dependencies\<close> collects, is
  the number of package lines plus the number of such lines.
\<close>

theorem indented_comment_counted_as_dependency:
  "(\<forall>line \<in> set (split_on newline content).
      indented_comment line \<longrightarrow>
        py_strip line \<in> set (python_info_lines content)
        \<and> strip_pins line \<in> set (requirement_deps content))
   \<and> length (python_info_lines content)
       = length (filter package_line (split_on newline content))
         + length (filter indented_comment (split_on newline content))
   \<and> length (requirement_deps content)
       = length (filter package_line (split_on newline content))
         + length (filter indented_comment (split_on newline content))
   \<and> extract_python_info (File (str ''requirements.txt'') content)
       = Some (str ''Dependencies: ''
               @ str_of_nat (length (filter package_line (split_on newline content))
                             + length (filter indented_comment (split_on newline content)))
               @ str '' packages'')"
proof -
  have mem: "py_strip line \<in> set (python_info_lines content)
             \<and> strip_pins line \<in> set (requirement_deps content)"
    if "line \<in> set (split_on newline content)" and "indented_comment line" for line
  proof -
    from that(2) have "py_strip line \<noteq> [] \<and> \<not> startswith line (str ''#'')"
      by (rule indented_comment_kept)
    with that(1) have "line \<in> set (filter (\<lambda>line. py_strip line \<noteq> [] \<and> \<not> startswith line (str ''#''))
                                     (split_on newline content))"
      by simp
    then show ?thesis
      unfolding python_info_lines_def requirement_deps_def strip_pins_def [symmetric]
      by (auto simp: strip_pins_def)
  qed
  have "extract_python_info (File (str ''requirements.txt'') content)
       = Some (str ''Dependencies: ''
               @ str_of_nat (length (filter package_line (split_on newline content))
                             + length (filter indented_comment (split_on newline content)))
               @ str '' packages'')"
    by (simp add: extract_python_info_requirements python_info_count)
  with mem python_info_count [of content] requirement_deps_count [of content]
  show ?thesis by blast
qed

theorem indented_comment_counted_as_dependency_witness:
  "indented_comment (str ''  # first'')
   \<and> indented_comment (str ''  # last'')
   \<and> split_on newline (str ''  # first\<newline>flask==2.0\<newline>  # last'')
       = [str ''  # first'', str ''flask==2.0'', str ''  # last'']
   \<and> str ''# first'' \<in> set (python_info_lines (str ''  # first\<newline>flask==2.0\<newline>  # last''))
   \<and> str ''  # last'' \<in> set (requirement_deps (str ''  # first\<newline>flask==2.0\<newline>  # last''))
   \<and> extract_python_info (File (str ''requirements.txt'')
        (str ''  # first\<newline>flask==2.0\<newline>  # last''))
       = Some (str ''Dependencies: 3 packages'')"
proof -
  let ?c = "str ''  # first\<newline>flask==2.0\<newline>  # last''"
  have sp: "split_on newline ?c = [str ''  # first'', str ''flask==2.0'', str ''  # last'']"
    by (simp add: str_def newline_def)
  have i1: "indented_comment (str ''  # first'')" and i2: "indented_comment (str ''  # last'')"
    by (simp_all add: indented_comment_def comment_line_def is_space_def str_def)
  have np: "length (filter package_line (split_on newline ?c)) = 1"
    unfolding sp by (simp add: package_line_def blank_line_def comment_line_def is_space_def str_def)
  have ni: "length (filter indented_comment (split_on newline ?c)) = 2"
    unfolding sp by (simp add: indented_comment_def comment_line_def is_space_def str_def)
  have s1: "py_strip (str ''  # first'') = str ''# first''"
    by (simp add: py_strip_def is_space_def str_def)
  have s2: "strip_pins (str ''  # last'') = str ''  # last''"
    by (simp add: strip_pins_def str_def)
  note t = indented_comment_counted_as_dependency [of ?c]
  have m1: "str ''# first'' \<in> set (python_info_lines ?c)"
    using t i1 s1 unfolding sp by simp
  have m2: "str ''  # last'' \<in> set (requirement_deps ?c)"
    using t i2 s2 unfolding sp by simp
  have tot: "length (filter package_line (split_on newline ?c))
             + length (filter indented_comment (split_on newline ?c)) = 3"
    using np ni by simp
  from t have "extract_python_info (File (str ''requirements.txt'') ?c)
       = Some (str ''Dependencies: ''
               @ str_of_nat (length (filter package_line (split_on newline ?c))
                             + length (filter indented_comment (split_on newline ?c)))
               @ str '' packages'')"
    by blast
  then have r: "extract_python_info (File (str ''requirements.txt'') ?c)
           = Some (str ''Dependencies: 3 packages'')"
    unfolding tot str_of_nat_3 by (simp add: str_def)
  from i1 i2 sp m1 m2 r show ?thesis by (intro conjI)
qed

section \<open>Configuration scan and entry points\<close>


lemma config_loop_absent:
  "\<forall>p \<in> set ps. \<not> path_exists repo p \<Longrightarrow> config_loop env repo ps acc = acc"
  by (induction ps arbitrary: acc) (auto simp: path_exists_def)

text \<open>
  C8. When none of the sixteen configuration filenames exists at the root of the
  repository, the configuration scan returns the placeholder "No configuration files
  found", which is not the empty text.
\<close>

theorem find_config_files_placeholder:
  assumes "\<forall>p \<in> set config_patterns. \<not> path_exists repo p"
  shows "find_config_files env repo = str ''No configuration files found''
         \<and> find_config_files env repo \<noteq> []
         \<and> length config_patterns = 16"
proof -
  have "config_loop env repo config_patterns [] = []"
    using assms by (rule config_loop_absent)
  then have "find_config_files env repo = str ''No configuration files found''"
    by (simp add: find_config_files_def)
  moreover have "str ''No configuration files found'' \<noteq> []"
    by (simp add: str_def)
  moreover have "length config_patterns = 16"
    by (simp add: config_patterns_def)
  ultimately show ?thesis by simp
qed


theorem find_config_files_placeholder_witness:
  "list_all (\<lambda>p. \<not> path_exists (Dir (str ''svc'') [File (str ''README.md'') (str ''hello''),
                                       Dir (str ''deploy'') [File (str ''Makefile'') []]]) p)
     config_patterns
   \<and> find_config_files no_libs
        (Dir (str ''svc'') [File (str ''README.md'') (str ''hello''),
                           Dir (str ''deploy'') [File (str ''Makefile'') []]])
      = str ''No configuration files found''"
proof -
  let ?r = "Dir (str ''svc'') [File (str ''README.md'') (str ''hello''),
                              Dir (str ''deploy'') [File (str ''Makefile'') []]]"
  have h: "\<forall>p \<in> set config_patterns. \<not> path_exists ?r p"
    by (simp add: config_patterns_def path_exists_def str_def)
  show ?thesis
    using h find_config_files_placeholder [OF h, of no_libs] by (simp add: list_all_iff)
qed

lemma entry_loop_filter:
  "entry_loop repo fs acc = acc @ filter (path_exists repo) fs"
  by (induction fs arbitrary: acc) auto

lemma path_exists_Dir: "path_exists (Dir n cs) = (\<lambda>f. f \<in> entry_name ` set cs)"
  by (rule ext) (auto simp: path_exists_def find_None_iff)

text \<open>
  C6. The entry points are the canonical filenames that exist at the root, in the order
  of the canonical list, for every root directory. When main.py is the only canonical
  filename among the entries of the root, the result is the one-element list of
  main.py, whatever the subdirectories hold.
\<close>

theorem find_entry_points_root_only:
  "find_entry_points (Dir n cs)
     = filter (\<lambda>f. f \<in> entry_name ` set cs) common_entry_files
   \<and> ((\<exists>e \<in> set cs. entry_name e = str ''main.py'')
        \<and> (\<forall>e \<in> set cs. entry_name e \<in> set common_entry_files \<longrightarrow> entry_name e = str ''main.py'')
       \<longrightarrow> find_entry_points (Dir n cs) = [str ''main.py''])"
proof -
  have gen: "find_entry_points (Dir n cs) = filter (\<lambda>f. f \<in> entry_name ` set cs) common_entry_files"
    by (simp add: find_entry_points_def entry_loop_filter path_exists_Dir)
  have one: "find_entry_points (Dir n cs) = [str ''main.py'']"
    if a: "\<exists>e \<in> set cs. entry_name e = str ''main.py''"
      and b: "\<forall>e \<in> set cs. entry_name e \<in> set common_entry_files \<longrightarrow> entry_name e = str ''main.py''"
  proof -
    have iff: "f \<in> entry_name ` set cs \<longleftrightarrow> f = str ''main.py''" if f: "f \<in> set common_entry_files" for f
    proof
      assume "f \<in> entry_name ` set cs"
      then obtain e where e: "e \<in> set cs" "entry_name e = f" by blast
      with b f show "f = str ''main.py''" by blast
    next
      assume "f = str ''main.py''"
      with a show "f \<in> entry_name ` set cs" by force
    qed
    have "filter (\<lambda>f. f \<in> entry_name ` set cs) common_entry_files
          = filter (\<lambda>f. f = str ''main.py'') common_entry_files"
      by (rule filter_cong) (simp_all add: iff)
    also have "\<dots> = [str ''main.py'']"
      by (simp add: common_entry_files_def str_def)
    finally show ?thesis using gen by simp
  qed
  from gen one show ?thesis by blast
qed

theorem find_entry_points_root_only_witness:
  "find_entry_points
     (Dir (str ''svc'') [Dir (str ''web'') [File (str ''app.py'') [], File (str ''index.js'') []],
                        File (str ''main.py'') (str ''print(1)''),
                        File (str ''README.md'') []])
   = [str ''main.py'']
   \<and> find_entry_points
     (Dir (str ''svc'') [File (str ''index.js'') [], File (str ''app.py'') [],
                        Dir (str ''src'') [File (str ''main.py'') []]])
   = [str ''app.py'', str ''index.js'']
   \<and> find_entry_points (Dir (str ''svc'') [File (str ''README.md'') []]) = []"
proof -
  let ?cs = "[Dir (str ''web'') [File (str ''app.py'') [], File (str ''index.js'') []],
              File (str ''main.py'') (str ''print(1)''),
              File (str ''README.md'') []]"
  let ?ds = "[File (str ''index.js'') [], File (str ''app.py'') [],
              Dir (str ''src'') [File (str ''main.py'') []]]"
  have a: "\<exists>e \<in> set ?cs. entry_name e = str ''main.py''" by simp
  have b: "\<forall>e \<in> set ?cs. entry_name e \<in> set common_entry_files \<longrightarrow> entry_name e = str ''main.py''"
    by (simp add: common_entry_files_def str_def)
  have one: "find_entry_points (Dir (str ''svc'') ?cs) = [str ''main.py'']"
    using find_entry_points_root_only [of "str ''svc''" ?cs] a b by blast
  have "find_entry_points (Dir (str ''svc'') ?ds)
        = filter (\<lambda>f. f \<in> entry_name ` set ?ds) common_entry_files"
    using find_entry_points_root_only [of "str ''svc''" ?ds] by blast
  also have "\<dots> = [str ''app.py'', str ''index.js'']"
    by (simp add: common_entry_files_def str_def)
  finally have two: "find_entry_points (Dir (str ''svc'') ?ds) = [str ''app.py'', str ''index.js'']" .
  have "find_entry_points (Dir (str ''svc'') [File (str ''README.md'') []])
        = filter (\<lambda>f. f \<in> entry_name ` set [File (str ''README.md'') []]) common_entry_files"
    using find_entry_points_root_only [of "str ''svc''" "[File (str ''README.md'') []]"] by blast
  also have "\<dots> = []"
    by (simp add: common_entry_files_def str_def)
  finally have none: "find_entry_points (Dir (str ''svc'') [File (str ''README.md'') []]) = []" .
  from one two none show ?thesis by (intro conjI)
qed

section \<open>The dependency summary\<close>







section \<open>The structure renderer at depth zero\<close>

lemma add_items_depth_zero:
  "add_items 0 items pfx 0
   = Inr (map (\<lambda>e. pfx @ mid_connector @ entry_name e) (butlast items)
          @ (if items = [] then [] else [pfx @ last_connector @ entry_name (last items)]))"
  by (induction items) (simp_all add: Let_def)

lemma mid_line_not_last: "\<not> startswith (mid_connector @ x) last_connector"
  by (simp add: startswith_def mid_connector_def last_connector_def)

lemma last_line_is_last: "startswith (last_connector @ x) last_connector"
  by (simp add: startswith_def)

lemma no_last_connector_among_mid:
  "filter (\<lambda>l. startswith l last_connector) (map (\<lambda>e. mid_connector @ entry_name e) xs) = []"
  by (induction xs) (simp_all add: mid_line_not_last)

lemma sorted_le_last:
  fixes x :: "'a::linorder"
  shows "sorted xs \<Longrightarrow> x \<in> set xs \<Longrightarrow> x \<le> last xs"
  by (induction xs) auto

lemma sort_key_Nil_iff: "sort_key f xs = [] \<longleftrightarrow> xs = []"
proof -
  have "length (sort_key f xs) = length xs" by simp
  then show ?thesis by (metis length_0_conv)
qed

lemma last_item_greatest:
  assumes "items = sort_key entry_name (filter listed cs)" and "e \<in> set cs" and "listed e"
  shows "entry_name e \<le> entry_name (last items)"
proof -
  have "filter listed cs \<noteq> []" using assms(2,3) by (auto simp: filter_empty_conv)
  then have ne: "items \<noteq> []" using assms(1) by (simp add: sort_key_Nil_iff)
  have "sorted (map entry_name items)" using assms(1) by simp
  moreover have "entry_name e \<in> set (map entry_name items)" using assms by simp
  ultimately have "entry_name e \<le> last (map entry_name items)"
    by (rule sorted_le_last)
  then show ?thesis using ne by (simp add: last_map)
qed

text \<open>
  C7, as the code has it. With \<open>max_depth = 0\<close> the rendering of a directory is its
  name followed by one
  line per listed entry of the directory itself, in the order of their names, and
  nothing from below. When at least one entry is listed, the last-sibling connector
  begins exactly one of these lines, the final one, which names the entry greatest in
  the order of names.
\<close>

theorem get_project_structure_depth_zero:
  assumes "items = sort_key entry_name (filter listed cs)" and "items \<noteq> []"
  shows "\<exists>lines. get_project_structure (Dir n cs) 0 = Inr (join [newline] (n # lines))
           \<and> lines = map (\<lambda>e. mid_connector @ entry_name e) (butlast items)
                       @ [last_connector @ entry_name (last items)]
           \<and> length lines = length (filter listed cs)
           \<and> length (filter (\<lambda>l. startswith l last_connector) lines) = 1
           \<and> startswith (last lines) last_connector
           \<and> (\<forall>e \<in> set cs. listed e \<longrightarrow> entry_name e \<le> entry_name (last items))"
proof -
  let ?lines = "map (\<lambda>e. mid_connector @ entry_name e) (butlast items)
                @ [last_connector @ entry_name (last items)]"
  have run: "get_project_structure (Dir n cs) 0 = Inr (join [newline] (n # ?lines))"
    using assms by (simp add: get_project_structure_def add_items_depth_zero)
  have "length items = length (filter listed cs)" using assms(1) by simp
  moreover have "0 < length items" using assms(2) by simp
  ultimately have len: "length ?lines = length (filter listed cs)"
    by simp
  have once: "length (filter (\<lambda>l. startswith l last_connector) ?lines) = 1"
    by (simp add: no_last_connector_among_mid last_line_is_last)
  have fin: "startswith (last ?lines) last_connector"
    by (simp add: last_line_is_last)
  have top: "\<forall>e \<in> set cs. listed e \<longrightarrow> entry_name e \<le> entry_name (last items)"
    using last_item_greatest [OF assms(1)] by blast
  from run len once fin top show ?thesis by blast
qed

theorem get_project_structure_depth_zero_witness:
  "sort_key entry_name
     (filter listed
       [File (str ''setup.py'') [],
        Dir (str ''.git'') [File (str ''HEAD'') []],
        Dir (str ''app'') [File (str ''main.py'') [], Dir (str ''api'') [File (str ''v1.py'') []]],
        Dir (str ''node_modules'') [File (str ''x.js'') []],
        File (str ''README.md'') []])
   = [File (str ''README.md'') [],
      Dir (str ''app'') [File (str ''main.py'') [], Dir (str ''api'') [File (str ''v1.py'') []]],
      File (str ''setup.py'') []]
   \<and> get_project_structure sample_tree 0
       = Inr (str ''svc'' @ [newline] @ mid_connector @ str ''README.md'' @ [newline]
              @ mid_connector @ str ''app'' @ [newline] @ last_connector @ str ''setup.py'')"
proof -
  let ?cs = "[File (str ''setup.py'') [],
        Dir (str ''.git'') [File (str ''HEAD'') []],
        Dir (str ''app'') [File (str ''main.py'') [], Dir (str ''api'') [File (str ''v1.py'') []]],
        Dir (str ''node_modules'') [File (str ''x.js'') []],
        File (str ''README.md'') []]"
  let ?items = "[File (str ''README.md'') [],
      Dir (str ''app'') [File (str ''main.py'') [], Dir (str ''api'') [File (str ''v1.py'') []]],
      File (str ''setup.py'') []]"
  have i: "?items = sort_key entry_name (filter listed ?cs)"
    by (simp add: listed_def startswith_def str_def)
  have ne: "?items \<noteq> []" by simp
  obtain lines where r: "get_project_structure (Dir (str ''svc'') ?cs) 0 = Inr (join [newline] (str ''svc'' # lines))"
    and l: "lines = map (\<lambda>e. mid_connector @ entry_name e) (butlast ?items)
                    @ [last_connector @ entry_name (last ?items)]"
    using get_project_structure_depth_zero [OF i ne] by blast
  have "get_project_structure sample_tree 0
        = Inr (str ''svc'' @ [newline] @ mid_connector @ str ''README.md'' @ [newline]
              @ mid_connector @ str ''app'' @ [newline] @ last_connector @ str ''setup.py'')"
    unfolding sample_tree_def r l by simp
  with i show ?thesis by simp
qed

text \<open>
  A root whose only entry is hidden has no listed entry: its rendering is its name
  alone, and the last-sibling connector does not occur in it.
\<close>

theorem get_project_structure_empty_counterexample:
  "filter listed [Dir (str ''.git'') [File (str ''HEAD'') []]] = []
   \<and> get_project_structure (Dir (str ''svc'') [Dir (str ''.git'') [File (str ''HEAD'') []]]) 0
       = Inr (str ''svc'')
   \<and> \<not> sublist last_connector (str ''svc'')"
proof -
  have l: "\<not> listed (Dir (str ''.git'') [File (str ''HEAD'') []])"
    by (simp add: listed_def startswith_def str_def)
  have a: "filter listed [Dir (str ''.git'') [File (str ''HEAD'') []]] = []"
    using l by simp
  have b: "get_project_structure (Dir (str ''svc'') [Dir (str ''.git'') [File (str ''HEAD'') []]]) 0
           = Inr (str ''svc'')"
    using l by (simp add: get_project_structure_def)
  have c: "\<not> sublist last_connector (str ''svc'')"
    by (simp add: last_connector_def str_def sublist_Cons_right)
  from a b c show ?thesis by (intro conjI)
qed

section \<open>The first pass of the API specification finder\<close>

lemma openapi_loop_blocks:
  "openapi_loop env fs specs
   = specs @ concat (map (spec_block env)
               (filter (\<lambda>e. path_suffix (entry_name e) \<in> set spec_suffixes) fs))"
  by (induction fs arbitrary: specs) (auto simp: spec_block_def spec_suffixes_def split: option.splits)

lemma graphql_loop_prefix: "prefix specs (graphql_loop fs specs)"
proof (induction fs arbitrary: specs)
  case Nil
  then show ?case by simp
next
  case (Cons a fs)
  show ?case
    using Cons.IH [of specs] Cons.IH [of "specs @ [str ''GraphQL Schema: '' @ entry_name a]"]
    by (auto dest: append_prefixD)
qed

lemma api_docs_loop_prefix: "prefix specs (api_docs_loop fs specs)"
proof (induction fs arbitrary: specs)
  case Nil
  then show ?case by simp
next
  case (Cons a fs)
  show ?case
    using Cons.IH [of specs]
      Cons.IH [of "specs @ [str ''API Documentation: '' @ entry_name a @ str ''/'']"]
    by (auto dest: append_prefixD)
qed

lemma extract_unparsed:
  "parsed_document env f = None \<Longrightarrow> extract_api_info env f = None"
  by (cases f) (auto simp: parsed_document_def extract_api_info_def extract_api_info_body_def
      split: if_splits)

lemma extract_parsed:
  "parsed_document env f = Some d
   \<Longrightarrow> extract_api_info env f = (case api_info_text env d of Inl e \<Rightarrow> None | Inr r \<Rightarrow> Some r)"
  by (cases f) (auto simp: parsed_document_def extract_api_info_def extract_api_info_body_def
      split: if_splits)

lemma has_key_iff: "VStr k \<in> fst ` set kv \<longleftrightarrow> map_of kv (VStr k) \<noteq> None"
  by (simp add: map_of_eq_None_iff)

lemma not_all_str_nonempty: "\<not> list_all is_str vs \<Longrightarrow> vs \<noteq> []"
  by auto

lemma ill_shaped_text:
  assumes "\<not> expected_shape d"
  shows "api_info_text env d = Inr [] \<or> (\<exists>e. api_info_text env d = Inl e)"
proof (cases d)
  case (VDict kv)
  show ?thesis
  proof (cases "map_of kv (VStr (str ''info''))")
    case None
    note ni = this
    show ?thesis
    proof (cases "map_of kv (VStr (str ''paths''))")
      case None
      with ni VDict show ?thesis by (simp add: api_info_text_def has_key_iff)
    next
      case (Some p)
      with ni VDict assms show ?thesis
        by (cases p) (auto simp: api_info_text_def has_key_iff join_vals_def)
    qed
  next
    case (Some i)
    note si = this
    show ?thesis
    proof (cases "is_dict i")
      case False
      with si VDict show ?thesis
        by (cases i) (auto simp: api_info_text_def has_key_iff)
    next
      case True
      then obtain ikv where i: "i = VDict ikv" by (cases i) auto
      show ?thesis
      proof (cases "map_of kv (VStr (str ''paths''))")
        case None
        with si VDict assms i show ?thesis by simp
      next
        case (Some p)
        with si VDict assms i show ?thesis
          by (cases p) (auto simp: api_info_text_def has_key_iff join_vals_def)
      qed
    qed
  qed
qed (auto simp: api_info_text_def)

lemma ill_shaped_extract:
  assumes "parsed_document env f = None \<or> (\<exists>d. parsed_document env f = Some d \<and> \<not> expected_shape d)"
  shows "extract_api_info env f = None \<or> extract_api_info env f = Some []"
proof -
  from assms show ?thesis
  proof
    assume "parsed_document env f = None"
    then show ?thesis by (simp add: extract_unparsed)
  next
    assume "\<exists>d. parsed_document env f = Some d \<and> \<not> expected_shape d"
    then obtain d where p: "parsed_document env f = Some d" and n: "\<not> expected_shape d"
      by (elim exE conjE)
    from ill_shaped_text [OF n, of env] show ?thesis
      by (auto simp: extract_parsed [OF p])
  qed
qed

text \<open>
  The expected shape is exactly what the extraction needs: a document of that shape
  yields extracted text that is not empty.
\<close>

lemma title_line_not_Nil: "str ''  Title: '' \<noteq> []" "str ''  Endpoints: '' \<noteq> []"
  by (simp_all add: str_def)

lemma well_shaped_text:
  assumes "expected_shape d"
  shows "\<exists>r. api_info_text env d = Inr r \<and> r \<noteq> []"
proof -
  from assms obtain kv where d: "d = VDict kv" by (cases d) auto
  show ?thesis
  proof (cases "map_of kv (VStr (str ''info''))")
    case None
    with assms d obtain ps where p: "map_of kv (VStr (str ''paths'')) = Some (VDict ps)"
      and s: "list_all is_str (take 3 (map fst ps))"
      by (auto split: option.splits pyval.splits)
    with None d show ?thesis
      by (simp add: api_info_text_def has_key_iff join_vals_def title_line_not_Nil)
  next
    case (Some i)
    with assms d obtain ikv where i: "i = VDict ikv" by (cases i) auto
    show ?thesis
    proof (cases "map_of kv (VStr (str ''paths''))")
      case None
      with Some i d show ?thesis
        by (simp add: api_info_text_def has_key_iff title_line_not_Nil)
    next
      case (Some p)
      with assms d obtain ps where p: "p = VDict ps"
        and s: "list_all is_str (take 3 (map fst ps))"
        by (cases p) (auto split: option.splits)
      with Some \<open>map_of kv (VStr (str ''info'')) = Some i\<close> i d show ?thesis
        by (simp add: api_info_text_def has_key_iff join_vals_def title_line_not_Nil)
    qed
  qed
qed

lemma well_shaped_extract:
  assumes "parsed_document env f = Some d" and "expected_shape d"
  shows "\<exists>r. extract_api_info env f = Some r \<and> r \<noteq> []"
  using well_shaped_text [OF assms(2), of env] by (auto simp: extract_parsed [OF assms(1)])

text \<open>
  C5. A discovered file with a YAML or JSON suffix whose content cannot be read or
  parsed, or whose parsed document lacks the expected shape, adds its header line to
  the report and nothing else, wherever it stands among the discovered files; the
  report of \<open>find_api_specs\<close> is then the join of lines among which that header stands.
  Every exception of the extraction ends inside \<open>_extract_api_info\<close>.
\<close>

theorem failed_extraction_keeps_header:
  assumes "f \<in> set (openapi_files repo)"
    and "path_suffix (entry_name f) \<in> set spec_suffixes"
    and "parsed_document env f = None \<or> (\<exists>d. parsed_document env f = Some d \<and> \<not> expected_shape d)"
  shows "openapi_loop env (before @ f # after) specs
           = openapi_loop env before specs
             @ (str ''OpenAPI Spec: '' @ entry_name f) # openapi_loop env after []
         \<and> (\<exists>specs. find_api_specs env repo = join [newline] specs
                    \<and> str ''OpenAPI Spec: '' @ entry_name f \<in> set specs)"
proof -
  let ?h = "str ''OpenAPI Spec: '' @ entry_name f"
  let ?ok = "\<lambda>e. path_suffix (entry_name e) \<in> set spec_suffixes"
  have block: "spec_block env f = [?h]"
    using ill_shaped_extract [OF assms(3)] by (auto simp: spec_block_def)
  have a: "openapi_loop env (before @ f # after) specs
           = openapi_loop env before specs @ ?h # openapi_loop env after []"
    using assms(2) by (simp add: openapi_loop_blocks block)
  let ?s1 = "openapi_loop env (openapi_files repo) []"
  let ?s2 = "graphql_loop (rglob (str ''*.graphql'') repo @ rglob (str ''*schema*'') repo) ?s1"
  let ?s3 = "api_docs_loop (rglob (str ''*api*'') repo @ rglob (str ''*docs*'') repo) ?s2"
  have "f \<in> set (filter ?ok (openapi_files repo))" using assms(1,2) by simp
  then have "?h \<in> set ?s1"
    unfolding openapi_loop_blocks using block by (auto intro!: bexI [of _ f])
  moreover have "prefix ?s1 ?s3"
    using graphql_loop_prefix api_docs_loop_prefix by (rule prefix_order.trans)
  ultimately have mem: "?h \<in> set ?s3"
    using set_mono_prefix by blast
  then have "?s3 \<noteq> []" by auto
  then have "find_api_specs env repo = join [newline] ?s3"
    by (simp add: find_api_specs_def Let_def)
  with mem a show ?thesis by blast
qed

theorem failed_extraction_keeps_header_witness:
  "parsed_document yaml_libs (File (str ''openapi.yaml'') (str ''name: billing''))
     = Some (VDict [(VStr (str ''name''), VStr (str ''billing''))])
   \<and> parsed_document yaml_libs (File (str ''swagger.json'') (str ''{''))  = None
   \<and> find_api_specs yaml_libs
        (Dir (str ''svc'') [File (str ''openapi.yaml'') (str ''name: billing''),
                           File (str ''swagger.json'') (str ''{'')])
       = str ''OpenAPI Spec: openapi.yaml\<newline>OpenAPI Spec: swagger.json''"
proof -
  let ?f = "File (str ''openapi.yaml'') (str ''name: billing'')"
  let ?g = "File (str ''swagger.json'') (str ''{'')"
  let ?repo = "Dir (str ''svc'') [?f, ?g]"
  have files: "openapi_files ?repo = [?f, ?g]"
    by (simp add: openapi_files_def str_def)
  have sf: "path_suffix (entry_name ?f) \<in> set spec_suffixes"
    and sg: "path_suffix (entry_name ?g) \<in> set spec_suffixes"
    by (simp_all add: path_suffix_def spec_suffixes_def str_def)
  have pf: "parsed_document yaml_libs ?f = Some (VDict [(VStr (str ''name''), VStr (str ''billing''))])"
    by (simp add: parsed_document_def yaml_libs_def path_suffix_def str_def)
  have pg: "parsed_document yaml_libs ?g = None"
    by (simp add: parsed_document_def yaml_libs_def path_suffix_def str_def)
  have bad: "\<not> expected_shape (VDict [(VStr (str ''name''), VStr (str ''billing''))])"
    by (simp add: str_def)
  have hf: "parsed_document yaml_libs ?f = None
            \<or> (\<exists>d. parsed_document yaml_libs ?f = Some d \<and> \<not> expected_shape d)"
    using pf bad by simp
  have hg: "parsed_document yaml_libs ?g = None
            \<or> (\<exists>d. parsed_document yaml_libs ?g = Some d \<and> \<not> expected_shape d)"
    using pg by simp
  have inf: "?f \<in> set (openapi_files ?repo)" and ing: "?g \<in> set (openapi_files ?repo)"
    by (simp_all add: files)
  have "openapi_loop yaml_libs ([] @ ?f # [?g]) []
        = openapi_loop yaml_libs [] [] @ (str ''OpenAPI Spec: '' @ entry_name ?f) # openapi_loop yaml_libs [?g] []"
    using failed_extraction_keeps_header [OF inf sf hf] by blast
  moreover have "openapi_loop yaml_libs ([] @ ?g # []) []
        = openapi_loop yaml_libs [] [] @ (str ''OpenAPI Spec: '' @ entry_name ?g) # openapi_loop yaml_libs [] []"
    using failed_extraction_keeps_header [OF ing sg hg] by blast
  ultimately have loop: "openapi_loop yaml_libs [?f, ?g] []
        = [str ''OpenAPI Spec: '' @ entry_name ?f, str ''OpenAPI Spec: '' @ entry_name ?g]"
    by simp
  have g2: "rglob (str ''*.graphql'') ?repo @ rglob (str ''*schema*'') ?repo = []"
    and g3: "rglob (str ''*api*'') ?repo @ rglob (str ''*docs*'') ?repo = [?f]"
    by (simp_all add: str_def)
  have "find_api_specs yaml_libs ?repo
        = str ''OpenAPI Spec: openapi.yaml\<newline>OpenAPI Spec: swagger.json''"
    unfolding find_api_specs_def files loop g2 g3 by (simp add: Let_def) (simp add: str_def newline_def)
  with pf pg show ?thesis by simp
qed

lemma glob_match_star: "glob_match [42] s"
  by (induction s) auto

lemma glob_match_literal_star:
  "42 \<notin> set k \<Longrightarrow> glob_match (k @ [42]) s \<longleftrightarrow> prefix k s"
proof (induction k arbitrary: s)
  case Nil
  then show ?case by (simp add: glob_match_star)
next
  case (Cons a k)
  then show ?case by (cases s) auto
qed

lemma glob_match_star_first:
  "glob_match (42 # p) s \<longleftrightarrow> (\<exists>a b. s = a @ b \<and> glob_match p b)"
proof (induction s)
  case Nil
  then show ?case by (cases p) auto
next
  case (Cons c cs)
  have "(\<exists>a b. c # cs = a @ b \<and> glob_match p b)
        \<longleftrightarrow> glob_match p (c # cs) \<or> (\<exists>a b. cs = a @ b \<and> glob_match p b)"
    by (auto simp: Cons_eq_append_conv)
  with Cons show ?case by simp
qed

lemma glob_match_contains:
  assumes "42 \<notin> set k"
  shows "glob_match (42 # k @ [42]) s \<longleftrightarrow> sublist k s"
  unfolding glob_match_star_first glob_match_literal_star [OF assms]
  by (auto simp: sublist_def prefix_def)

lemma set_rglob:
  "set (rglob pat r) = {e \<in> set (descendants r). glob_match pat (entry_name e)}"
  by (induction r) auto

lemma openapi_pattern: "glob_match (str ''*openapi*'') s \<longleftrightarrow> sublist (str ''openapi'') s"
proof -
  have "str ''*openapi*'' = 42 # str ''openapi'' @ [42]" by (simp add: str_def)
  moreover have "42 \<notin> set (str ''openapi'')" by (simp add: str_def)
  ultimately show ?thesis by (simp add: glob_match_contains)
qed

lemma swagger_pattern: "glob_match (str ''*swagger*'') s \<longleftrightarrow> sublist (str ''swagger'') s"
proof -
  have "str ''*swagger*'' = 42 # str ''swagger'' @ [42]" by (simp add: str_def)
  moreover have "42 \<notin> set (str ''swagger'')" by (simp add: str_def)
  ultimately show ?thesis by (simp add: glob_match_contains)
qed

lemma set_openapi_files:
  "set (openapi_files repo) = {e \<in> set (descendants repo). keyword_in_name (entry_name e)}"
  by (auto simp: openapi_files_def set_rglob openapi_pattern swagger_pattern keyword_in_name_def)

text \<open>
  C4, as the code has it. The first pass selects exactly the entries below the root
  whose name contains \<open>openapi\<close> or \<open>swagger\<close>, in lower case as written, and whose
  suffix is \<open>.yaml\<close>, \<open>.yml\<close> or \<open>.json\<close>; its output is, for each selected
  entry found, the header line of the entry followed by the extracted text when there
  is any.
\<close>

theorem openapi_pass_selection:
  "set (filter (\<lambda>e. path_suffix (entry_name e) \<in> set spec_suffixes) (openapi_files repo))
     = {e \<in> set (descendants repo).
          keyword_in_name (entry_name e) \<and> path_suffix (entry_name e) \<in> set spec_suffixes}
   \<and> openapi_loop env (openapi_files repo) []
     = concat (map (spec_block env)
         (filter (\<lambda>e. path_suffix (entry_name e) \<in> set spec_suffixes) (openapi_files repo)))"
proof -
  have "set (filter (\<lambda>e. path_suffix (entry_name e) \<in> set spec_suffixes) (openapi_files repo))
     = {e \<in> set (descendants repo).
          keyword_in_name (entry_name e) \<and> path_suffix (entry_name e) \<in> set spec_suffixes}"
    using set_openapi_files [of repo] by auto
  then show ?thesis by (simp add: openapi_loop_blocks)
qed

text \<open>
  A file named OpenAPI.yaml contains a keyword once its name is lower-cased, and has a
  YAML suffix; the first pass does not select it, and the report has no line for it.
\<close>

theorem openapi_pass_case_counterexample:
  "claimed_spec_file (File (str ''OpenAPI.yaml'') [])
   \<and> File (str ''OpenAPI.yaml'') [] \<in> set (descendants (Dir (str ''svc'') [File (str ''OpenAPI.yaml'') []]))
   \<and> openapi_loop no_libs (openapi_files (Dir (str ''svc'') [File (str ''OpenAPI.yaml'') []])) [] = []
   \<and> find_api_specs no_libs (Dir (str ''svc'') [File (str ''OpenAPI.yaml'') []])
       = str ''No API specifications found''"
proof -
  have a: "claimed_spec_file (File (str ''OpenAPI.yaml'') [])"
    by (simp add: claimed_spec_file_def keyword_in_name_def ascii_lower_def path_suffix_def
        spec_suffixes_def str_def sublist_Cons_right)
  have b: "openapi_files (Dir (str ''svc'') [File (str ''OpenAPI.yaml'') []]) = []"
    by (simp add: openapi_files_def str_def)
  have c: "find_api_specs no_libs (Dir (str ''svc'') [File (str ''OpenAPI.yaml'') []])
           = str ''No API specifications found''"
    by (simp add: find_api_specs_def b) (simp add: str_def)
  from a b c show ?thesis by simp
qed

text \<open>A name with both keywords is found by both patterns and gets two header lines.\<close>

lemma both_keywords_listed_twice:
  "openapi_loop no_libs (openapi_files (Dir (str ''svc'') [File (str ''openapi-swagger.json'') []])) []
   = [str ''OpenAPI Spec: openapi-swagger.json'', str ''OpenAPI Spec: openapi-swagger.json'']"
proof -
  have "openapi_files (Dir (str ''svc'') [File (str ''openapi-swagger.json'') []])
        = [File (str ''openapi-swagger.json'') [], File (str ''openapi-swagger.json'') []]"
    by (simp add: openapi_files_def str_def)
  moreover have "extract_api_info no_libs (File (str ''openapi-swagger.json'') []) = None"
    by (simp add: extract_api_info_def extract_api_info_body_def no_libs_def)
  moreover have "path_suffix (str ''openapi-swagger.json'') = str ''.json''"
    by (simp add: path_suffix_def str_def)
  ultimately show ?thesis by (simp add: str_def)
qed

section \<open>The assembled context\<close>

text \<open>
  C1, as the code has it. The context is built from the five sections in the order
  structure, README, API specifications, code analysis, configuration; a section is
  emitted as a bold-labelled block exactly when its data is not empty (a placeholder
  marker is a text like any other), and the blocks are joined with a blank line.
\<close>

theorem prepare_llm_context_sections:
  "prepare_llm_context a
   = join [newline, newline] (map block (filter (\<lambda>s. fst (snd s) \<noteq> []) (sections a)))"
proof -
  have l: "str ''**Project Structure:**\<newline>'' = str ''**'' @ str ''Project Structure'' @ str '':**\<newline>''"
    "str ''**Existing README:**\<newline>'' = str ''**'' @ str ''Existing README'' @ str '':**\<newline>''"
    "str ''**API Specifications:**\<newline>'' = str ''**'' @ str ''API Specifications'' @ str '':**\<newline>''"
    "str ''**Code Analysis:**\<newline>'' = str ''**'' @ str ''Code Analysis'' @ str '':**\<newline>''"
    "str ''**Configuration:**\<newline>'' = str ''**'' @ str ''Configuration'' @ str '':**\<newline>''"
    by (simp_all add: str_def)
  have "context_parts a = map block (filter (\<lambda>s. fst (snd s) \<noteq> []) (sections a))"
    unfolding context_parts_def sections_def l
    by (cases "readme a") (simp_all add: Let_def block_def)
  then show ?thesis by (simp add: prepare_llm_context_def)
qed

text \<open>
  For a repository that holds nothing, both finders return their placeholder marker,
  and the context has a block for each of them, where the specification has none.
\<close>

theorem placeholder_sections_counterexample:
  "api_specs empty_repo_analysis = str ''No API specifications found''
   \<and> config_files empty_repo_analysis = str ''No configuration files found''
   \<and> prepare_llm_context empty_repo_analysis
       = str ''**Project Structure:**\<newline>svc\<newline>\<newline>**API Specifications:**\<newline>No API specifications found\<newline>\<newline>**Configuration:**\<newline>No configuration files found''
   \<and> claimed_context empty_repo_analysis = str ''**Project Structure:**\<newline>svc''
   \<and> prepare_llm_context empty_repo_analysis \<noteq> claimed_context empty_repo_analysis"
proof -
  have api: "find_api_specs no_libs (Dir (str ''svc'') []) = str ''No API specifications found''"
    by (simp add: find_api_specs_def openapi_files_def)
  have cfg: "find_config_files no_libs (Dir (str ''svc'') []) = str ''No configuration files found''"
    by (simp add: find_config_files_def config_patterns_def)
  have rd: "find_readme (Dir (str ''svc'') []) = None"
    by (simp add: find_readme_def readme_patterns_def)
  have a: "empty_repo_analysis
           = \<lparr>structure_text = str ''svc'', readme = None,
              api_specs = str ''No API specifications found'', code_analysis = [],
              config_files = str ''No configuration files found''\<rparr>"
    by (simp add: empty_repo_analysis_def api cfg rd)
  have p: "prepare_llm_context empty_repo_analysis
       = str ''**Project Structure:**\<newline>svc\<newline>\<newline>**API Specifications:**\<newline>No API specifications found\<newline>\<newline>**Configuration:**\<newline>No configuration files found''"
    unfolding a by (simp add: prepare_llm_context_def context_parts_def Let_def str_def newline_def)
  have c: "claimed_context empty_repo_analysis = str ''**Project Structure:**\<newline>svc''"
    unfolding a
    by (simp add: claimed_context_def sections_def placeholder_markers_def block_def str_def)
  have d: "prepare_llm_context empty_repo_analysis \<noteq> claimed_context empty_repo_analysis"
    unfolding p c by (simp add: str_def)
  have s1: "api_specs empty_repo_analysis = str ''No API specifications found''"
    and s2: "config_files empty_repo_analysis = str ''No configuration files found''"
    unfolding a by simp_all
  from s1 s2 p c d show ?thesis by (intro conjI)
qed

text \<open>
  C3. A README that is present and not empty is emitted, after the structure block if
  there is one, as the label line followed by its first 2000 characters and three
  dots, whatever its length; for a README of 5000 characters that is 2000 characters
  and a suffix of 3.
\<close>

theorem readme_block_truncated:
  assumes "readme a = Some r" and "r \<noteq> []"
  shows "(\<exists>later. context_parts a
            = (if structure_text a \<noteq> [] then [str ''**Project Structure:**\<newline>'' @ structure_text a] else [])
              @ [str ''**Existing README:**\<newline>'' @ take 2000 r @ str ''...''] @ later)
         \<and> (length r = 5000 \<longrightarrow>
              length (take 2000 r) = 2000 \<and> length (str ''...'') = 3
              \<and> length (take 2000 r @ str ''...'') = 2003)"
proof -
  have "\<exists>later. context_parts a
            = (if structure_text a \<noteq> [] then [str ''**Project Structure:**\<newline>'' @ structure_text a] else [])
              @ [str ''**Existing README:**\<newline>'' @ take 2000 r @ str ''...''] @ later"
    using assms by (simp add: context_parts_def Let_def)
  moreover have "length (str ''...'') = 3" by (simp add: str_def)
  ultimately show ?thesis by simp
qed

lemma find_readme_verbatim:
  "find_readme (Dir n (File (str ''README.md'') r # cs)) = Some r"
  by (simp add: find_readme_def readme_patterns_def)

theorem readme_block_truncated_witness:
  "readme long_readme_analysis = Some (replicate 5000 97)
   \<and> context_parts long_readme_analysis
     = [str ''**Project Structure:**\<newline>svc'',
        str ''**Existing README:**\<newline>'' @ replicate 2000 97 @ str ''...'',
        str ''**API Specifications:**\<newline>No API specifications found'',
        str ''**Configuration:**\<newline>- README'']
   \<and> length (replicate 2000 (97::nat) @ str ''...'') = 2003"
proof -
  have r: "readme long_readme_analysis = Some (replicate 5000 97)"
    by (simp add: long_readme_analysis_def find_readme_verbatim)
  have ne: "replicate 5000 (97::nat) \<noteq> []" by simp
  have t: "take 2000 (replicate 5000 (97::nat)) = replicate 2000 97" by simp
  from readme_block_truncated [OF r ne]
  have len: "length (take 2000 (replicate 5000 (97::nat)) @ str ''...'') = 2003"
    by simp
  have parts: "context_parts long_readme_analysis
     = [str ''**Project Structure:**\<newline>svc'',
        str ''**Existing README:**\<newline>'' @ replicate 2000 97 @ str ''...'',
        str ''**API Specifications:**\<newline>No API specifications found'',
        str ''**Configuration:**\<newline>- README'']"
    using r t
    by (simp add: context_parts_def Let_def long_readme_analysis_def) (simp add: str_def)
  from r parts len t show ?thesis by simp
qed

end
